theory Spec2Isabelle
  imports Main "HOL-Library.Sublist"
begin

section \<open>Python values, exceptions and the runtime the walker consults\<close>

text \<open>
  The values that can sit on the walker's top of stack. \<open>VNone\<close> is Python's \<open>None\<close>,
  which the source also uses for "nothing on the stack" (\<open>tos = None\<close>). \<open>VStr\<close> is a
  \<open>str\<close> (what \<open>isinstance(tos, str)\<close> recognises). \<open>VObj k\<close> is any other object,
  named by its identity \<open>k\<close>: a module, a function, a class, a list, ...
\<close>

datatype pyval = VNone | VBool bool | VInt int | VStr string | VObj nat

text \<open>
  The exceptions of class \<open>Exception\<close> that the source can meet.
  \<open>CodeVersioningError message cause\<close> is an instance of the domain error raised by
  \<open>raise ... from e\<close>, with \<open>e\<close> as its \<open>__cause__\<close>.
\<close>

datatype exn =
    KeyError string
  | AttributeError string
  | ImportError string
  | AssertionError
  | TypeError
  | ValueError
  | OtherException string
  | CodeVersioningError string exn

fun is_CodeVersioningError :: "exn \<Rightarrow> bool" where
  "is_CodeVersioningError (CodeVersioningError m c) = True"
| "is_CodeVersioningError e = False"

text \<open>
  What the walker asks of the Python runtime: \<open>importlib.import_module\<close>, the builtin
  \<open>getattr\<close>, the truth value of an object (\<open>__bool__\<close>/\<open>__len__\<close>, which may raise),
  and two things of the repository whose source is not part of the files at hand and
  which are therefore parameters:
  \<^item> \<open>bionic.utils.misc.oneline\<close>;
  \<^item> the class \<open>CodeVersioningError\<close> of \<open>bionic/exception.py\<close>. Line 157 calls it
    with one argument, \<open>CodeVersioningError(message)\<close>. Whether that call returns a new
    exception or raises (as it does when the constructor demands more arguments) is
    decided by the class: \<open>init_CodeVersioningError env message\<close> is \<open>None\<close> when the
    call returns, and \<open>Some e\<close> when the call raises \<open>e\<close>.
\<close>

record py_env =
  import_module :: "string \<Rightarrow> exn + pyval"
  getattr :: "pyval \<Rightarrow> string \<Rightarrow> exn + pyval"
  bool_obj :: "nat \<Rightarrow> exn + bool"
  oneline :: "string \<Rightarrow> string"
  init_CodeVersioningError :: "string \<Rightarrow> exn option"

text \<open>Python's truth test \<open>bool(v)\<close>, as the conditions \<open>... and tos\<close> evaluate it.\<close>

fun truthy :: "py_env \<Rightarrow> pyval \<Rightarrow> exn + bool" where
  "truthy env VNone = Inr False"
| "truthy env (VBool b) = Inr b"
| "truthy env (VInt i) = Inr (i \<noteq> 0)"
| "truthy env (VStr s) = Inr (s \<noteq> [])"
| "truthy env (VObj k) = bool_obj env k"

section \<open>The data model of \<open>code_references.py\<close>\<close>

record CodeContext =
  globals :: "string \<rightharpoonup> pyval"
  cells :: "string \<rightharpoonup> pyval"
  varnames :: "string \<rightharpoonup> pyval"

text \<open>
  One element of \<open>dis.get_instructions(code)\<close>. Every branch of the walker that reads
  \<open>argval\<close> does so for an instruction whose argument is a name.
\<close>

record instr =
  opname :: string
  argval :: string
  starts_line :: "int option"

record code_obj =
  co_filename :: string
  co_name :: string
  co_cellvars :: "string list"
  co_freevars :: "string list"
  instructions :: "instr list"

text \<open>
  A callable as \<open>get_code_context\<close> reads it: \<open>__code__\<close>, \<open>__globals__\<close>,
  \<open>__closure__\<close> (\<open>None\<close> or a tuple of cells; reading \<open>cell_contents\<close> of an empty cell
  raises \<open>ValueError\<close>) and \<open>__self__\<close> when \<open>inspect.ismethod\<close> holds.
\<close>

record func =
  f_code :: code_obj
  f_globals :: "string \<rightharpoonup> pyval"
  f_closure :: "pyval option list option"
  f_self :: "pyval option"

section \<open>\<open>get_code_context\<close>\<close>

fun bind_freevars ::
  "(string \<times> pyval option) list \<Rightarrow> (string \<rightharpoonup> pyval) \<Rightarrow> exn + (string \<rightharpoonup> pyval)" where
  "bind_freevars [] cs = Inr cs"
| "bind_freevars ((freevar, cell) # rest) cs =
     (case cell of
        None \<Rightarrow> Inl ValueError
      | Some v \<Rightarrow> bind_freevars rest (cs(freevar \<mapsto> v)))"

text \<open>
  The \<open>assert\<close> is modelled as Python runs it by default (assertions enabled): a failed
  assertion raises \<open>AssertionError\<close>. \<open>len(None)\<close> raises \<open>TypeError\<close>.
\<close>

definition get_code_context :: "func \<Rightarrow> exn + CodeContext" where
  "get_code_context f =
     (let code = f_code f;
          cells0 = fold (\<lambda>var cs. cs(var \<mapsto> VStr var)) (co_cellvars code) Map.empty;
          cells1 =
            (if co_freevars code \<noteq> [] then
               (case f_closure f of
                  None \<Rightarrow> Inl TypeError
                | Some closure \<Rightarrow>
                    if length (co_freevars code) = length closure
                    then bind_freevars (zip (co_freevars code) closure) cells0
                    else Inl AssertionError)
             else Inr cells0)
      in case cells1 of
           Inl e \<Rightarrow> Inl e
         | Inr cs \<Rightarrow>
             Inr \<lparr>globals = f_globals f, cells = cs,
                  varnames = (case f_self f of
                                Some s \<Rightarrow> [''self'' \<mapsto> s]
                              | None \<Rightarrow> Map.empty)\<rparr>)"

section \<open>\<open>get_referenced_objects\<close>\<close>

text \<open>
  The local variables of the walk, together with the context object whose \<open>varnames\<close>
  dictionary the walk mutates in place.
\<close>

record wstate =
  tos :: pyval
  lineno :: "int option"
  refs :: "pyval list"
  wctx :: CodeContext

definition init_state :: "CodeContext \<Rightarrow> wstate" where
  "init_state ctx = \<lparr>tos = VNone, lineno = None, refs = [], wctx = ctx\<rparr>"

definition set_tos :: "pyval \<Rightarrow> wstate \<Rightarrow> wstate" where
  "set_tos t st =
     (if tos st \<noteq> VNone
      then st\<lparr>refs := refs st @ [tos st], tos := t\<rparr>
      else st\<lparr>tos := t\<rparr>)"

text \<open>The final \<open>else\<close> branch: "for all other instructions, hash the current TOS".\<close>

definition hash_tos :: "wstate \<Rightarrow> wstate" where
  "hash_tos st =
     (if tos st \<noteq> VNone
      then st\<lparr>refs := refs st @ [tos st], tos := VNone\<rparr>
      else st)"

definition set_lineno :: "instr \<Rightarrow> wstate \<Rightarrow> wstate" where
  "set_lineno op st =
     (case starts_line op of
        Some l \<Rightarrow> st\<lparr>lineno := Some l\<rparr>
      | None \<Rightarrow> st)"

text \<open>
  The \<open>if\<close>/\<open>elif\<close> chain of the loop body. In the source the conditions of the
  \<open>DELETE_FAST\<close>, \<open>STORE_FAST\<close> and \<open>LOAD_FAST\<close> branches are conjunctions
  (\<open>op.opname == "STORE_FAST" and tos\<close>); when the opcode matches and the second
  conjunct is false, no later condition can hold and control reaches the final
  \<open>else\<close>, which is \<open>hash_tos\<close> here. Evaluating \<open>tos\<close> for truth may raise.
\<close>

definition dispatch :: "py_env \<Rightarrow> instr \<Rightarrow> wstate \<Rightarrow> exn + wstate" where
  "dispatch env op st =
     (if opname op \<in> set [''LOAD_GLOBAL'', ''LOAD_NAME''] then
        (case globals (wctx st) (argval op) of
           Some v \<Rightarrow> Inr (set_tos v st)
         | None \<Rightarrow> Inr (set_tos (VStr (argval op)) st))
      else if opname op \<in> set [''LOAD_DEREF'', ''LOAD_CLOSURE''] then
        (case cells (wctx st) (argval op) of
           Some v \<Rightarrow> Inr (set_tos v st)
         | None \<Rightarrow> Inl (KeyError (argval op)))
      else if opname op = ''IMPORT_NAME'' then
        (case import_module env (argval op) of
           Inr m \<Rightarrow> Inr (set_tos m st)
         | Inl (ImportError x) \<Rightarrow> Inr (set_tos (VStr (argval op)) st)
         | Inl e \<Rightarrow> Inl e)
      else if opname op \<in> set [''LOAD_METHOD'', ''LOAD_ATTR'', ''IMPORT_FROM''] then
        (case tos st of
           VNone \<Rightarrow> Inr (st\<lparr>refs := refs st @ [VStr (argval op)]\<rparr>)
         | VStr s \<Rightarrow> Inr (st\<lparr>tos := VStr (s @ ''.'' @ argval op)\<rparr>)
         | _ \<Rightarrow>
             (case getattr env (tos st) (argval op) of
                Inl e \<Rightarrow> Inl e
              | Inr v \<Rightarrow> Inr (st\<lparr>tos := v\<rparr>)))
      else if opname op = ''DELETE_FAST'' then
        (case truthy env (tos st) of
           Inl e \<Rightarrow> Inl e
         | Inr True \<Rightarrow>
             (if argval op \<in> dom (varnames (wctx st))
              then Inr (st\<lparr>wctx := (wctx st)\<lparr>varnames :=
                              (varnames (wctx st))(argval op := None)\<rparr>,
                           tos := VNone\<rparr>)
              else Inl (KeyError (argval op)))
         | Inr False \<Rightarrow> Inr (hash_tos st))
      else if opname op = ''STORE_FAST'' then
        (case truthy env (tos st) of
           Inl e \<Rightarrow> Inl e
         | Inr True \<Rightarrow>
             Inr (st\<lparr>wctx := (wctx st)\<lparr>varnames :=
                         (varnames (wctx st))(argval op \<mapsto> tos st)\<rparr>,
                      tos := VNone\<rparr>)
         | Inr False \<Rightarrow> Inr (hash_tos st))
      else if opname op = ''LOAD_FAST'' then
        (case varnames (wctx st) (argval op) of
           Some v \<Rightarrow> Inr (set_tos v st)
         | None \<Rightarrow> Inr (hash_tos st))
      else Inr (hash_tos st))"

text \<open>Python's \<open>str\<close> of an integer and of the \<open>lineno\<close> variable (an \<open>int\<close> or \<open>None\<close>).\<close>

fun digits :: "nat \<Rightarrow> string" where
  "digits n =
     (if n < 10 then [''0123456789'' ! n]
      else digits (n div 10) @ [''0123456789'' ! (n mod 10)])"

definition str_int :: "int \<Rightarrow> string" where
  "str_int i = (if i < 0 then ''-'' @ digits (nat (- i)) else digits (nat i))"

definition str_lineno :: "int option \<Rightarrow> string" where
  "str_lineno l = (case l of None \<Rightarrow> ''None'' | Some i \<Rightarrow> str_int i)"

text \<open>The f-string handed to \<open>oneline\<close>; the \<open>$\<close> signs are literal text in it.\<close>

definition message_text :: "code_obj \<Rightarrow> int option \<Rightarrow> string" where
  "message_text code l =
     ''\<newline>            Bionic found a code reference in file $'' @ co_filename code @
     ''\<newline>            at line $'' @ str_lineno l @ '' that it cannot hash when hashing'' @
     ''\<newline>            $'' @ co_name code @ ''.This should be impossible and is most'' @
     ''\<newline>            likely a bug in Bionic. Please raise a new issue at'' @
     ''\<newline>            https://github.com/square/bionic/issues to let us know.'' @
     ''\<newline>            ''"

text \<open>
  The \<open>for\<close> loop with its \<open>try\<close>/\<open>except Exception\<close>. The handler builds the message
  and evaluates \<open>CodeVersioningError(message)\<close>. When that call returns, the new exception
  is raised with \<open>e\<close> as its cause. When the call itself raises, that exception leaves the
  handler instead: it is not the domain error, and the original exception is only its
  implicit \<open>__context__\<close>, not its \<open>__cause__\<close>. Either way the walk ends; the context
  object is returned beside the exception, as the caller still holds it after the raise.
\<close>

fun walk_ops ::
  "py_env \<Rightarrow> code_obj \<Rightarrow> instr list \<Rightarrow> wstate \<Rightarrow> (exn \<times> CodeContext) + wstate" where
  "walk_ops env code [] st = Inr st"
| "walk_ops env code (op # rest) st =
     (let st1 = set_lineno op st in
      case dispatch env op st1 of
        Inl e \<Rightarrow>
          (let message = oneline env (message_text code (lineno st1)) in
           case init_CodeVersioningError env message of
             None \<Rightarrow> Inl (CodeVersioningError message e, wctx st1)
           | Some e' \<Rightarrow> Inl (e', wctx st1))
      | Inr st2 \<Rightarrow> walk_ops env code rest st2)"

text \<open>
  The result of the call, and the context object as the call leaves it.
\<close>

definition get_referenced_objects ::
  "py_env \<Rightarrow> code_obj \<Rightarrow> CodeContext \<Rightarrow> (exn + pyval list) \<times> CodeContext" where
  "get_referenced_objects env code ctx =
     (case walk_ops env code (instructions code) (init_state ctx) of
        Inl (e, ctx') \<Rightarrow> (Inl e, ctx')
      | Inr st \<Rightarrow> (Inr (refs st), wctx st))"

section \<open>Concrete inputs\<close>

text \<open>
  A small runtime, code object and context on which the theorems below are evaluated:
  the module \<open>pytest\<close> is importable and has an attribute \<open>mark\<close>; every other
  import fails with \<open>ImportError\<close>; \<open>global_val\<close> and \<open>zero\<close> are module globals.
  The constructor of \<open>CodeVersioningError\<close> takes the message and a second positional
  argument (\<open>bad_descriptor\<close>), so the call with the message alone raises \<open>TypeError\<close>.
\<close>

definition demo_env :: py_env where
  "demo_env =
     \<lparr>import_module = (\<lambda>n. if n = ''pytest'' then Inr (VObj 1) else Inl (ImportError n)),
      getattr = (\<lambda>v n. if v = VObj 1 \<and> n = ''mark'' then Inr (VObj 2) else Inl (AttributeError n)),
      bool_obj = (\<lambda>k. Inr True),
      oneline = (\<lambda>s. s),
      init_CodeVersioningError = (\<lambda>m. Some TypeError)\<rparr>"

definition demo_code :: "instr list \<Rightarrow> code_obj" where
  "demo_code ops =
     \<lparr>co_filename = ''flow.py'', co_name = ''x'', co_cellvars = [], co_freevars = [],
      instructions = ops\<rparr>"

definition demo_ctx :: CodeContext where
  "demo_ctx = \<lparr>globals = [''global_val'' \<mapsto> VInt 42, ''zero'' \<mapsto> VInt 0],
               cells = Map.empty, varnames = Map.empty\<rparr>"

definition ins :: "string \<Rightarrow> string \<Rightarrow> instr" where
  "ins name arg = \<lparr>opname = name, argval = arg, starts_line = None\<rparr>"

definition line_ins :: "int \<Rightarrow> string \<Rightarrow> string \<Rightarrow> instr" where
  "line_ins l name arg = \<lparr>opname = name, argval = arg, starts_line = Some l\<rparr>"


text \<open>
  A callable object whose \<open>__code__\<close> names two free variables while its \<open>__closure__\<close>
  holds one cell.
\<close>

definition demo_func :: func where
  "demo_func =
     \<lparr>f_code = \<lparr>co_filename = ''flow.py'', co_name = ''x'', co_cellvars = [],
                co_freevars = [''a'', ''b''], instructions = []\<rparr>,
      f_globals = Map.empty, f_closure = Some [Some (VInt 1)], f_self = None\<rparr>"

section \<open>Single instructions\<close>

lemma set_lineno_fields [simp]:
  "tos (set_lineno op st) = tos st"
  "refs (set_lineno op st) = refs st"
  "wctx (set_lineno op st) = wctx st"
  by (simp_all add: set_lineno_def split: option.splits)

lemma walk_ops_single:
  "walk_ops env code [op] st =
     (case dispatch env op (set_lineno op st) of
        Inl e \<Rightarrow>
          (case init_CodeVersioningError env
                  (oneline env (message_text code (lineno (set_lineno op st)))) of
             None \<Rightarrow>
               Inl (CodeVersioningError
                      (oneline env (message_text code (lineno (set_lineno op st)))) e,
                    wctx st)
           | Some e' \<Rightarrow> Inl (e', wctx st))
      | Inr st2 \<Rightarrow> Inr st2)"
  by (simp add: Let_def split: sum.splits option.splits)

text \<open>
  C2: for an attribute-chain instruction (\<open>LOAD_METHOD\<close>, \<open>LOAD_ATTR\<close>,
  \<open>IMPORT_FROM\<close>) with attribute name \<open>n\<close>, processing it does exactly one of three things,
  by the current \<open>tos\<close>: when \<open>tos\<close> is empty, \<open>n\<close> is appended to \<open>refs\<close> and \<open>tos\<close>
  stays empty; when \<open>tos\<close> is a string \<open>s\<close>, \<open>tos\<close> becomes \<open>s + "." + n\<close> and \<open>refs\<close>
  is unchanged; when \<open>tos\<close> is any other object and \<open>getattr\<close> returns \<open>v\<close>, \<open>tos\<close> becomes
  \<open>v\<close> and \<open>refs\<close> is unchanged. Nothing else of the state changes but the remembered
  line number.
\<close>

theorem attribute_chain_step:
  assumes "opname op \<in> {''LOAD_METHOD'', ''LOAD_ATTR'', ''IMPORT_FROM''}"
  shows "(tos st = VNone \<longrightarrow>
            walk_ops env code [op] st =
              Inr ((set_lineno op st)\<lparr>refs := refs st @ [VStr (argval op)]\<rparr>))
       \<and> (\<forall>s. tos st = VStr s \<longrightarrow>
            walk_ops env code [op] st =
              Inr ((set_lineno op st)\<lparr>tos := VStr (s @ ''.'' @ argval op)\<rparr>))
       \<and> (\<forall>v. tos st \<noteq> VNone \<and> (\<forall>s. tos st \<noteq> VStr s)
              \<and> getattr env (tos st) (argval op) = Inr v \<longrightarrow>
            walk_ops env code [op] st = Inr ((set_lineno op st)\<lparr>tos := v\<rparr>))"
  using assms
  by (cases "tos st") (auto simp: walk_ops_single dispatch_def)


theorem attribute_chain_step_witness:
  "walk_ops demo_env (demo_code []) [ins ''LOAD_METHOD'' ''log_val''] (init_state demo_ctx)
     = Inr ((init_state demo_ctx)\<lparr>refs := [VStr ''log_val'']\<rparr>)
   \<and> walk_ops demo_env (demo_code []) [ins ''LOAD_ATTR'' ''b'']
         ((init_state demo_ctx)\<lparr>tos := VStr ''a''\<rparr>)
     = Inr ((init_state demo_ctx)\<lparr>tos := VStr ''a.b''\<rparr>)
   \<and> walk_ops demo_env (demo_code []) [ins ''IMPORT_FROM'' ''mark'']
         ((init_state demo_ctx)\<lparr>tos := VObj 1\<rparr>)
     = Inr ((init_state demo_ctx)\<lparr>tos := VObj 2\<rparr>)"
  using attribute_chain_step [where op = "ins ''LOAD_METHOD'' ''log_val''"
          and st = "init_state demo_ctx" and env = demo_env and code = "demo_code []"]
        attribute_chain_step [where op = "ins ''LOAD_ATTR'' ''b''"
          and st = "(init_state demo_ctx)\<lparr>tos := VStr ''a''\<rparr>" and env = demo_env
          and code = "demo_code []"]
        attribute_chain_step [where op = "ins ''IMPORT_FROM'' ''mark''"
          and st = "(init_state demo_ctx)\<lparr>tos := VObj 1\<rparr>" and env = demo_env
          and code = "demo_code []"]
  by (simp add: ins_def init_state_def set_lineno_def demo_env_def)

text \<open>
  C8: for an \<open>IMPORT_NAME\<close> instruction with dotted name \<open>n\<close>, when
  \<open>importlib.import_module(n)\<close> returns a module \<open>m\<close> the walker performs \<open>set_tos(m)\<close>;
  when it raises \<open>ImportError\<close> (the module cannot be imported) the walker performs
  \<open>set_tos(n)\<close> with the name as a string, and the instruction ends normally.
\<close>

theorem import_name_step:
  assumes "opname op = ''IMPORT_NAME''"
  shows "(\<forall>m. import_module env (argval op) = Inr m \<longrightarrow>
            walk_ops env code [op] st = Inr (set_tos m (set_lineno op st)))
       \<and> (\<forall>x. import_module env (argval op) = Inl (ImportError x) \<longrightarrow>
            walk_ops env code [op] st = Inr (set_tos (VStr (argval op)) (set_lineno op st)))"
  using assms by (simp add: walk_ops_single dispatch_def)

theorem import_name_step_witness:
  "walk_ops demo_env (demo_code []) [ins ''IMPORT_NAME'' ''pytest''] (init_state demo_ctx)
     = Inr ((init_state demo_ctx)\<lparr>tos := VObj 1\<rparr>)
   \<and> walk_ops demo_env (demo_code []) [ins ''IMPORT_NAME'' ''no.such.module'']
         ((init_state demo_ctx)\<lparr>tos := VInt 42\<rparr>)
     = Inr ((init_state demo_ctx)\<lparr>refs := [VInt 42], tos := VStr ''no.such.module''\<rparr>)"
  using import_name_step [where op = "ins ''IMPORT_NAME'' ''pytest''"
          and st = "init_state demo_ctx" and env = demo_env and code = "demo_code []"]
        import_name_step [where op = "ins ''IMPORT_NAME'' ''no.such.module''"
          and st = "(init_state demo_ctx)\<lparr>tos := VInt 42\<rparr>" and env = demo_env
          and code = "demo_code []"]
  by (simp add: ins_def init_state_def set_lineno_def set_tos_def demo_env_def)

text \<open>
  C1 (amended): for a \<open>LOAD_FAST\<close> instruction whose name is present in
  \<open>context.varnames\<close> the walker performs \<open>set_tos(varnames[name])\<close>. When the name is
  absent the final \<open>else\<close> branch runs: a non-empty \<open>tos\<close> is appended to \<open>refs\<close> and
  cleared, and only when \<open>tos\<close> is empty is the state left as it was; \<open>varnames\<close> is
  unchanged either way.
\<close>

theorem load_fast_step:
  assumes "opname op = ''LOAD_FAST''"
  shows "(\<forall>v. varnames (wctx st) (argval op) = Some v \<longrightarrow>
            walk_ops env code [op] st = Inr (set_tos v (set_lineno op st)))
       \<and> (varnames (wctx st) (argval op) = None \<longrightarrow>
            walk_ops env code [op] st =
              Inr (if tos st = VNone then set_lineno op st
                   else (set_lineno op st)\<lparr>refs := refs st @ [tos st], tos := VNone\<rparr>))"
  using assms by (simp add: walk_ops_single dispatch_def hash_tos_def)

theorem load_fast_step_witness:
  "walk_ops demo_env (demo_code []) [ins ''LOAD_FAST'' ''p'']
       ((init_state (demo_ctx\<lparr>varnames := [''p'' \<mapsto> VObj 7]\<rparr>))\<lparr>tos := VInt 42\<rparr>)
     = Inr ((init_state (demo_ctx\<lparr>varnames := [''p'' \<mapsto> VObj 7]\<rparr>))
              \<lparr>refs := [VInt 42], tos := VObj 7\<rparr>)
   \<and> walk_ops demo_env (demo_code []) [ins ''LOAD_FAST'' ''arg''] (init_state demo_ctx)
     = Inr (init_state demo_ctx)"
  using load_fast_step [where op = "ins ''LOAD_FAST'' ''p''"
          and st = "(init_state (demo_ctx\<lparr>varnames := [''p'' \<mapsto> VObj 7]\<rparr>))\<lparr>tos := VInt 42\<rparr>"
          and env = demo_env and code = "demo_code []"]
        load_fast_step [where op = "ins ''LOAD_FAST'' ''arg''"
          and st = "init_state demo_ctx" and env = demo_env and code = "demo_code []"]
  by (simp add: ins_def init_state_def set_lineno_def set_tos_def demo_ctx_def)

text \<open>
  For C1 as first stated ("no effect when the name is absent"): in \<open>f(arg)\<close> the
  unknown local \<open>arg\<close> is loaded while \<open>tos\<close> holds \<open>f\<close>; the instruction moves \<open>f\<close>
  into \<open>refs\<close> and empties \<open>tos\<close>.
\<close>

theorem load_fast_unknown_counterexample:
  "walk_ops demo_env (demo_code []) [ins ''LOAD_GLOBAL'' ''f''] (init_state demo_ctx)
     = Inr ((init_state demo_ctx)\<lparr>tos := VStr ''f''\<rparr>)
   \<and> varnames (wctx ((init_state demo_ctx)\<lparr>tos := VStr ''f''\<rparr>)) ''arg'' = None
   \<and> walk_ops demo_env (demo_code []) [ins ''LOAD_FAST'' ''arg'']
         ((init_state demo_ctx)\<lparr>tos := VStr ''f''\<rparr>)
     = Inr ((init_state demo_ctx)\<lparr>refs := [VStr ''f'']\<rparr>)
   \<and> tos ((init_state demo_ctx)\<lparr>refs := [VStr ''f'']\<rparr>)
       \<noteq> tos ((init_state demo_ctx)\<lparr>tos := VStr ''f''\<rparr>)
   \<and> refs ((init_state demo_ctx)\<lparr>refs := [VStr ''f'']\<rparr>)
       \<noteq> refs ((init_state demo_ctx)\<lparr>tos := VStr ''f''\<rparr>)"
  by (simp add: walk_ops_single dispatch_def ins_def init_state_def set_lineno_def
        set_tos_def hash_tos_def demo_ctx_def)

text \<open>
  C4 (amended): for a \<open>STORE_FAST\<close> instruction with name \<open>n\<close> processed while
  \<open>tos\<close> is true in Python's sense (\<open>bool(tos)\<close> is \<open>True\<close>), the walker binds
  \<open>varnames[n]\<close> to \<open>tos\<close>, resets \<open>tos\<close> to empty and appends nothing to \<open>refs\<close>.
\<close>

theorem store_fast_step:
  assumes "opname op = ''STORE_FAST''" and "truthy env (tos st) = Inr True"
  shows "walk_ops env code [op] st =
           Inr ((set_lineno op st)
                  \<lparr>wctx := (wctx st)\<lparr>varnames := (varnames (wctx st))(argval op \<mapsto> tos st)\<rparr>,
                   tos := VNone\<rparr>)"
  using assms by (simp add: walk_ops_single dispatch_def)

theorem store_fast_step_witness:
  "walk_ops demo_env (demo_code []) [ins ''STORE_FAST'' ''my_class'']
       ((init_state demo_ctx)\<lparr>tos := VObj 1\<rparr>)
     = Inr ((init_state demo_ctx)
              \<lparr>wctx := demo_ctx\<lparr>varnames := [''my_class'' \<mapsto> VObj 1]\<rparr>\<rparr>)"
  using store_fast_step [where op = "ins ''STORE_FAST'' ''my_class''"
          and st = "(init_state demo_ctx)\<lparr>tos := VObj 1\<rparr>" and env = demo_env
          and code = "demo_code []"]
  by (simp add: ins_def init_state_def set_lineno_def demo_env_def demo_ctx_def)

text \<open>
  For C4 as first stated ("for every non-empty \<open>tos\<close>, whatever its value"): a global
  whose value is \<open>0\<close> is on \<open>tos\<close>, which is not \<open>None\<close> but false; \<open>STORE_FAST\<close> binds
  nothing and the value goes to \<open>refs\<close>.
\<close>

theorem store_fast_falsy_counterexample:
  "walk_ops demo_env (demo_code []) [ins ''LOAD_GLOBAL'' ''zero''] (init_state demo_ctx)
     = Inr ((init_state demo_ctx)\<lparr>tos := VInt 0\<rparr>)
   \<and> tos ((init_state demo_ctx)\<lparr>tos := VInt 0\<rparr>) \<noteq> VNone
   \<and> walk_ops demo_env (demo_code []) [ins ''STORE_FAST'' ''x'']
         ((init_state demo_ctx)\<lparr>tos := VInt 0\<rparr>)
     = Inr ((init_state demo_ctx)\<lparr>refs := [VInt 0]\<rparr>)
   \<and> varnames (wctx ((init_state demo_ctx)\<lparr>refs := [VInt 0]\<rparr>)) ''x'' = None
   \<and> refs ((init_state demo_ctx)\<lparr>refs := [VInt 0]\<rparr>)
       \<noteq> refs ((init_state demo_ctx)\<lparr>tos := VInt 0\<rparr>)"
  by (simp add: walk_ops_single dispatch_def ins_def init_state_def set_lineno_def
        set_tos_def hash_tos_def demo_ctx_def)

section \<open>Whole walks\<close>

lemma walk_ops_append:
  "walk_ops env code (xs @ ys) st =
     (case walk_ops env code xs st of Inl x \<Rightarrow> Inl x | Inr st' \<Rightarrow> walk_ops env code ys st')"
  by (induction xs arbitrary: st) (auto simp: Let_def split: sum.splits option.splits)

lemma set_tos_fields [simp]:
  "wctx (set_tos v st) = wctx st" "lineno (set_tos v st) = lineno st"
  "tos (set_tos v st) = v"
  "refs (set_tos v st) = (if tos st = VNone then refs st else refs st @ [tos st])"
  by (simp_all add: set_tos_def)

lemma hash_tos_fields [simp]:
  "wctx (hash_tos st) = wctx st" "lineno (hash_tos st) = lineno st"
  "tos (hash_tos st) = VNone"
  "refs (hash_tos st) = (if tos st = VNone then refs st else refs st @ [tos st])"
  by (simp_all add: hash_tos_def)

lemma dispatch_frame:
  assumes "dispatch env op st = Inr st'"
  shows "globals (wctx st') = globals (wctx st)" and "cells (wctx st') = cells (wctx st)"
    and "lineno st' = lineno st"
  using assms
  by (auto simp: dispatch_def split: if_splits option.splits sum.splits exn.splits pyval.splits bool.splits)

lemma walk_ops_frame_ok:
  "walk_ops env code ops st = Inr st' \<Longrightarrow>
     globals (wctx st') = globals (wctx st) \<and> cells (wctx st') = cells (wctx st)"
proof (induction ops arbitrary: st)
  case Nil
  then show ?case by simp
next
  case (Cons op ops)
  then obtain st2 where d: "dispatch env op (set_lineno op st) = Inr st2"
    and w: "walk_ops env code ops st2 = Inr st'"
    by (auto simp: Let_def split: sum.splits option.splits)
  from Cons.IH [OF w] dispatch_frame(1,2) [OF d] show ?case by simp
qed

lemma walk_ops_frame_err:
  "walk_ops env code ops st = Inl (e, c') \<Longrightarrow>
     globals c' = globals (wctx st) \<and> cells c' = cells (wctx st)"
proof (induction ops arbitrary: st)
  case Nil
  then show ?case by simp
next
  case (Cons op ops)
  show ?case
  proof (cases "dispatch env op (set_lineno op st)")
    case (Inl x)
    with Cons.prems show ?thesis by (auto simp: Let_def split: option.splits)
  next
    case (Inr st2)
    with Cons.prems have w: "walk_ops env code ops st2 = Inl (e, c')" by (simp add: Let_def)
    from Cons.IH [OF w] dispatch_frame(1,2) [OF Inr] show ?thesis by simp
  qed
qed

text \<open>
  C9: whatever the instructions, the runtime and the context, and whether the
  walk returns or raises, the context object it leaves behind has the \<open>globals\<close> and the
  \<open>cells\<close> it had before; of the three mappings only \<open>varnames\<close> is written. (The three
  dictionaries are three values here, as \<open>get_code_context\<close> builds them: \<open>cells\<close> and
  \<open>varnames\<close> are fresh dictionaries, distinct from each other and from the module's
  globals.)
\<close>

theorem walk_preserves_globals_and_cells:
  "globals (snd (get_referenced_objects env code c)) = globals c
   \<and> cells (snd (get_referenced_objects env code c)) = cells c"
proof (cases "walk_ops env code (instructions code) (init_state c)")
  case (Inl x)
  obtain e c' where x: "x = (e, c')" by (cases x)
  from walk_ops_frame_err [of env code "instructions code" "init_state c" e c'] Inl x
  show ?thesis by (simp add: get_referenced_objects_def init_state_def)
next
  case (Inr st)
  from walk_ops_frame_ok [OF Inr] Inr
  show ?thesis by (simp add: get_referenced_objects_def init_state_def)
qed

theorem walk_preserves_globals_and_cells_witness:
  "globals (snd (get_referenced_objects demo_env
                   (demo_code [ins ''LOAD_GLOBAL'' ''global_val'', ins ''STORE_FAST'' ''v''])
                   demo_ctx)) = globals demo_ctx
   \<and> cells (snd (get_referenced_objects demo_env
                   (demo_code [ins ''LOAD_GLOBAL'' ''global_val'', ins ''STORE_FAST'' ''v''])
                   demo_ctx)) = cells demo_ctx
   \<and> varnames (snd (get_referenced_objects demo_env
                   (demo_code [ins ''LOAD_GLOBAL'' ''global_val'', ins ''STORE_FAST'' ''v''])
                   demo_ctx)) = [''v'' \<mapsto> VInt 42]"
  using walk_preserves_globals_and_cells [of demo_env
          "demo_code [ins ''LOAD_GLOBAL'' ''global_val'', ins ''STORE_FAST'' ''v'']" demo_ctx]
  by (simp add: get_referenced_objects_def demo_code_def Let_def dispatch_def ins_def
        init_state_def set_lineno_def set_tos_def demo_ctx_def)

text \<open>
  C7: when the last instruction has been processed the walk returns \<open>refs\<close> as
  accumulated; the value of \<open>tos\<close> at that point is not appended to the result.
\<close>

theorem walk_drops_trailing_tos:
  assumes "walk_ops env code (instructions code) (init_state c) = Inr st"
  shows "fst (get_referenced_objects env code c) = Inr (refs st)
       \<and> fst (get_referenced_objects env code c) \<noteq> Inr (refs st @ [tos st])"
  using assms by (simp add: get_referenced_objects_def)

theorem walk_drops_trailing_tos_witness:
  "walk_ops demo_env (demo_code [ins ''LOAD_GLOBAL'' ''global_val''])
       (instructions (demo_code [ins ''LOAD_GLOBAL'' ''global_val''])) (init_state demo_ctx)
     = Inr ((init_state demo_ctx)\<lparr>tos := VInt 42\<rparr>)
   \<and> fst (get_referenced_objects demo_env (demo_code [ins ''LOAD_GLOBAL'' ''global_val'']) demo_ctx)
     = Inr []"
proof -
  have h: "walk_ops demo_env (demo_code [ins ''LOAD_GLOBAL'' ''global_val''])
       (instructions (demo_code [ins ''LOAD_GLOBAL'' ''global_val''])) (init_state demo_ctx)
     = Inr ((init_state demo_ctx)\<lparr>tos := VInt 42\<rparr>)"
    by (simp add: demo_code_def walk_ops_single dispatch_def ins_def init_state_def
          set_lineno_def set_tos_def demo_ctx_def)
  from walk_drops_trailing_tos [OF h] h show ?thesis by (simp add: init_state_def)
qed

text \<open>
  C5 (amended): for a callable with a non-empty list of free-variable names and a
  closure tuple of a different length, \<open>get_code_context\<close> raises \<open>AssertionError\<close> (the
  failed \<open>assert\<close>), so it neither truncates nor returns a context. The error is Python's
  assertion failure, not \<open>CodeVersioningError\<close>.
\<close>

theorem get_code_context_mismatch:
  assumes "co_freevars (f_code f) \<noteq> []" and "f_closure f = Some closure"
      and "length (co_freevars (f_code f)) \<noteq> length closure"
  shows "get_code_context f = Inl AssertionError"
  using assms by (simp add: get_code_context_def Let_def)

theorem get_code_context_mismatch_witness:
  "co_freevars (f_code demo_func) \<noteq> [] \<and> f_closure demo_func = Some [Some (VInt 1)]
   \<and> length (co_freevars (f_code demo_func)) \<noteq> length [Some (VInt 1)]
   \<and> get_code_context demo_func = Inl AssertionError"
proof -
  have h1: "co_freevars (f_code demo_func) \<noteq> []" by (simp add: demo_func_def)
  have h2: "f_closure demo_func = Some [Some (VInt 1)]" by (simp add: demo_func_def)
  have h3: "length (co_freevars (f_code demo_func)) \<noteq> length [Some (VInt 1)]"
    by (simp add: demo_func_def)
  from get_code_context_mismatch [OF h1 h2 h3] h1 h2 h3 show ?thesis by simp
qed

text \<open>
  For C5 as first stated ("raises the code-versioning error"): two free-variable names,
  one cell; the exception raised is \<open>AssertionError\<close>.
\<close>

theorem get_code_context_mismatch_counterexample:
  "length (co_freevars (f_code demo_func)) = 2 \<and> f_closure demo_func = Some [Some (VInt 1)]
   \<and> get_code_context demo_func = Inl AssertionError
   \<and> \<not> is_CodeVersioningError AssertionError"
  by (simp add: demo_func_def get_code_context_def Let_def)

text \<open>
  C6: the walk meets an instruction whose processing raises (a name missing from
  \<open>context.cells\<close> on \<open>LOAD_DEREF\<close>; an attribute that \<open>getattr\<close> does not find on
  \<open>IMPORT_FROM\<close>). The handler calls \<open>CodeVersioningError(message)\<close> with one argument,
  the constructor takes two, and what leaves the walk is the \<open>TypeError\<close> of that call,
  not a \<open>CodeVersioningError\<close> with the original exception as its cause.
\<close>

theorem walk_raises_type_error:
  "dispatch demo_env (ins ''LOAD_DEREF'' ''x'')
       \<lparr>tos = VInt 42, lineno = Some 3, refs = [], wctx = demo_ctx\<rparr> = Inl (KeyError ''x'')
   \<and> fst (get_referenced_objects demo_env
            (demo_code [line_ins 3 ''LOAD_GLOBAL'' ''global_val'', ins ''LOAD_DEREF'' ''x''])
            demo_ctx) = Inl TypeError
   \<and> fst (get_referenced_objects demo_env
            (demo_code [line_ins 5 ''IMPORT_NAME'' ''pytest'', ins ''IMPORT_FROM'' ''no_such_name'',
                        ins ''STORE_FAST'' ''no_such_name''])
            demo_ctx) = Inl TypeError
   \<and> \<not> is_CodeVersioningError TypeError"
  by (simp add: get_referenced_objects_def demo_code_def Let_def dispatch_def ins_def
        line_ins_def init_state_def set_lineno_def set_tos_def demo_ctx_def demo_env_def)

lemma dispatch_keeps_binding:
  assumes "dispatch env p st = Inr st'"
      and "\<not> (opname p = ''DELETE_FAST'' \<and> argval p = n)"
  shows "n \<in> dom (varnames (wctx st)) \<Longrightarrow> n \<in> dom (varnames (wctx st'))"
    and "\<not> (opname p = ''STORE_FAST'' \<and> argval p = n) \<Longrightarrow>
           varnames (wctx st') n = varnames (wctx st) n"
  using assms
  by (auto simp: dispatch_def split: if_splits option.splits sum.splits exn.splits pyval.splits bool.splits)

lemma walk_ops_keeps_binding:
  assumes "walk_ops env code ops st = Inr st'"
      and "\<forall>p \<in> set ops. \<not> (opname p = ''DELETE_FAST'' \<and> argval p = n)"
  shows "n \<in> dom (varnames (wctx st)) \<Longrightarrow> n \<in> dom (varnames (wctx st'))"
    and "\<forall>p \<in> set ops. \<not> (opname p = ''STORE_FAST'' \<and> argval p = n) \<Longrightarrow>
           varnames (wctx st') n = varnames (wctx st) n"
  using assms
proof (induction ops arbitrary: st)
  case Nil
  { case 1 then show ?case by simp }
  { case 2 then show ?case by simp }
next
  case (Cons op ops)
  { case 1
    then obtain st2 where d: "dispatch env op (set_lineno op st) = Inr st2"
      and w: "walk_ops env code ops st2 = Inr st'"
      by (auto simp: Let_def split: sum.splits option.splits)
    from 1 have nd: "\<not> (opname op = ''DELETE_FAST'' \<and> argval op = n)" by simp
    from dispatch_keeps_binding(1) [OF d nd] 1(1) have "n \<in> dom (varnames (wctx st2))" by simp
    with Cons.IH(1) [OF _ w] 1 show ?case by simp }
  { case 2
    then obtain st2 where d: "dispatch env op (set_lineno op st) = Inr st2"
      and w: "walk_ops env code ops st2 = Inr st'"
      by (auto simp: Let_def split: sum.splits option.splits)
    from 2 have nd: "\<not> (opname op = ''DELETE_FAST'' \<and> argval op = n)"
      and ns: "\<not> (opname op = ''STORE_FAST'' \<and> argval op = n)" by simp_all
    from dispatch_keeps_binding(2) [OF d nd ns]
    have "varnames (wctx st2) n = varnames (wctx st) n" by simp
    with Cons.IH(2) [OF _ w] 2 show ?case by simp }
qed

text \<open>
  C10: when the walk returns, a name bound by a \<open>STORE_FAST\<close> instruction (one
  processed with a true \<open>tos\<close>) and not the operand of a later \<open>DELETE_FAST\<close> is still a
  key of \<open>varnames\<close> in the context object the walk leaves behind; if no later
  \<open>STORE_FAST\<close> rebinds the name either, it is still bound to the value stored. Nothing
  restores \<open>varnames\<close> to what it was before the walk.
\<close>

theorem stored_binding_persists:
  assumes "instructions code = pre @ op # post"
      and "walk_ops env code pre (init_state c) = Inr st"
      and "opname op = ''STORE_FAST''"
      and "truthy env (tos st) = Inr True"
      and "\<forall>p \<in> set post. \<not> (opname p = ''DELETE_FAST'' \<and> argval p = argval op)"
      and "get_referenced_objects env code c = (Inr rs, c')"
  shows "argval op \<in> dom (varnames c')
       \<and> ((\<forall>p \<in> set post. \<not> (opname p = ''STORE_FAST'' \<and> argval p = argval op)) \<longrightarrow>
            varnames c' (argval op) = Some (tos st))"
proof -
  let ?st1 = "(set_lineno op st)
                \<lparr>wctx := (wctx st)\<lparr>varnames := (varnames (wctx st))(argval op \<mapsto> tos st)\<rparr>,
                 tos := VNone\<rparr>"
  have s: "walk_ops env code [op] st = Inr ?st1"
    using assms(3,4) by (simp add: walk_ops_single dispatch_def)
  have "walk_ops env code (pre @ [op] @ post) (init_state c) = walk_ops env code post ?st1"
    using assms(2) s by (simp only: walk_ops_append sum.case)
  with assms(1,6) obtain st' where w: "walk_ops env code post ?st1 = Inr st'"
    and c': "c' = wctx st'" and "rs = refs st'"
    by (auto simp: get_referenced_objects_def split: sum.splits)
  have b: "argval op \<in> dom (varnames (wctx ?st1))" by simp
  from walk_ops_keeps_binding(1) [OF w assms(5) b] have "argval op \<in> dom (varnames c')"
    by (simp add: c')
  moreover have "varnames c' (argval op) = Some (tos st)"
    if "\<forall>p \<in> set post. \<not> (opname p = ''STORE_FAST'' \<and> argval p = argval op)"
    using walk_ops_keeps_binding(2) [OF w assms(5) that] by (simp add: c')
  ultimately show ?thesis by blast
qed

theorem stored_binding_persists_witness:
  "get_referenced_objects demo_env
     (demo_code [ins ''IMPORT_NAME'' ''pytest'', ins ''STORE_FAST'' ''m'', ins ''LOAD_FAST'' ''m'',
                 ins ''RETURN_VALUE'' ''''])
     demo_ctx
   = (Inr [VObj 1], demo_ctx\<lparr>varnames := [''m'' \<mapsto> VObj 1]\<rparr>)
   \<and> ''m'' \<in> dom (varnames (demo_ctx\<lparr>varnames := [''m'' \<mapsto> VObj 1]\<rparr>))
   \<and> varnames (demo_ctx\<lparr>varnames := [''m'' \<mapsto> VObj 1]\<rparr>) ''m'' = Some (VObj 1)"
proof -
  let ?code = "demo_code [ins ''IMPORT_NAME'' ''pytest'', ins ''STORE_FAST'' ''m'',
                 ins ''LOAD_FAST'' ''m'', ins ''RETURN_VALUE'' '''']"
  let ?st = "(init_state demo_ctx)\<lparr>tos := VObj 1\<rparr>"
  have h1: "instructions ?code = [ins ''IMPORT_NAME'' ''pytest''] @ ins ''STORE_FAST'' ''m''
              # [ins ''LOAD_FAST'' ''m'', ins ''RETURN_VALUE'' '''']"
    by (simp add: demo_code_def)
  have h2: "walk_ops demo_env ?code [ins ''IMPORT_NAME'' ''pytest''] (init_state demo_ctx) = Inr ?st"
    by (simp add: walk_ops_single dispatch_def ins_def init_state_def set_lineno_def
          set_tos_def demo_env_def)
  have h3: "opname (ins ''STORE_FAST'' ''m'') = ''STORE_FAST''" by (simp add: ins_def)
  have h4: "truthy demo_env (tos ?st) = Inr True" by (simp add: demo_env_def)
  have h5: "\<forall>p \<in> set [ins ''LOAD_FAST'' ''m'', ins ''RETURN_VALUE'' ''''].
              \<not> (opname p = ''DELETE_FAST'' \<and> argval p = argval (ins ''STORE_FAST'' ''m''))"
    by (simp add: ins_def)
  have h6: "get_referenced_objects demo_env ?code demo_ctx
              = (Inr [VObj 1], demo_ctx\<lparr>varnames := [''m'' \<mapsto> VObj 1]\<rparr>)"
    by (simp add: get_referenced_objects_def demo_code_def Let_def dispatch_def ins_def
          init_state_def set_lineno_def set_tos_def hash_tos_def demo_ctx_def demo_env_def)
  from stored_binding_persists [OF h1 h2 h3 h4 h5 h6] h6 show ?thesis
    by (simp add: ins_def)
qed

lemma dispatch_refs_prefix:
  "dispatch env p st = Inr st' \<Longrightarrow> prefix (refs st) (refs st')"
  by (auto simp: dispatch_def split: if_splits option.splits sum.splits exn.splits pyval.splits bool.splits)

lemma walk_ops_refs_prefix:
  "walk_ops env code ops st = Inr st' \<Longrightarrow> prefix (refs st) (refs st')"
proof (induction ops arbitrary: st)
  case Nil
  then show ?case by simp
next
  case (Cons op ops)
  then obtain st2 where d: "dispatch env op (set_lineno op st) = Inr st2"
    and w: "walk_ops env code ops st2 = Inr st'"
    by (auto simp: Let_def split: sum.splits option.splits)
  from dispatch_refs_prefix [OF d] Cons.IH [OF w] show ?case
    by (auto intro: prefix_order.trans)
qed

lemma dispatch_consumes:
  assumes "dispatch env p st = Inr st'" and "tos st \<noteq> VNone"
      and "opname p \<notin> {''LOAD_METHOD'', ''LOAD_ATTR'', ''IMPORT_FROM'', ''STORE_FAST'', ''DELETE_FAST''}"
  shows "refs st' = refs st @ [tos st]"
  using assms
  by (auto simp: dispatch_def split: if_splits option.splits sum.splits exn.splits)

lemma chain3:
  assumes "opname o1 \<in> {''LOAD_GLOBAL'', ''LOAD_NAME''}"
      and "globals (wctx st) (argval o1) = None"
      and "opname o2 \<in> {''LOAD_METHOD'', ''LOAD_ATTR'', ''IMPORT_FROM''}"
      and "opname o3 \<in> {''LOAD_METHOD'', ''LOAD_ATTR'', ''IMPORT_FROM''}"
  shows "\<exists>s3. walk_ops env code [o1, o2, o3] st = Inr s3
            \<and> tos s3 = VStr (argval o1 @ ''.'' @ argval o2 @ ''.'' @ argval o3)
            \<and> refs s3 = refs st @ (if tos st = VNone then [] else [tos st])"
proof -
  let ?s1 = "set_tos (VStr (argval o1)) (set_lineno o1 st)"
  have 1: "dispatch env o1 (set_lineno o1 st) = Inr ?s1"
    using assms(1,2) by (auto simp: dispatch_def)
  let ?s2 = "(set_lineno o2 ?s1)\<lparr>tos := VStr (argval o1 @ ''.'' @ argval o2)\<rparr>"
  have 2: "dispatch env o2 (set_lineno o2 ?s1) = Inr ?s2"
    using assms(3) by (auto simp: dispatch_def)
  let ?s3 = "(set_lineno o3 ?s2)\<lparr>tos := VStr ((argval o1 @ ''.'' @ argval o2) @ ''.'' @ argval o3)\<rparr>"
  have 3: "dispatch env o3 (set_lineno o3 ?s2) = Inr ?s3"
    using assms(4) by (auto simp: dispatch_def)
  have "walk_ops env code [o1, o2, o3] st = Inr ?s3"
    using 1 2 3 by (simp add: Let_def)
  then show ?thesis by simp
qed

text \<open>
  C3 (amended): let the instruction stream hold a \<open>LOAD_GLOBAL\<close> or \<open>LOAD_NAME\<close> of a
  name \<open>a\<close> that is not a key of \<open>context.globals\<close>, then two attribute instructions \<open>b\<close>
  and \<open>c\<close>, and then an instruction that is neither a further attribute instruction nor
  \<open>STORE_FAST\<close> nor \<open>DELETE_FAST\<close>. If the walk returns, its result begins with the
  references collected before the chain, then the value the load of \<open>a\<close> displaced from
  \<open>tos\<close> (if there was one), then the dotted string \<open>"a.b.c"\<close> as one element; the three
  names are not recorded as separate elements.
\<close>

theorem dotted_chain_single_reference:
  assumes "instructions code = pre @ [o1, o2, o3, o4] @ post"
      and "walk_ops env code pre (init_state c) = Inr st"
      and "opname o1 \<in> {''LOAD_GLOBAL'', ''LOAD_NAME''}"
      and "globals c (argval o1) = None"
      and "opname o2 \<in> {''LOAD_METHOD'', ''LOAD_ATTR'', ''IMPORT_FROM''}"
      and "opname o3 \<in> {''LOAD_METHOD'', ''LOAD_ATTR'', ''IMPORT_FROM''}"
      and "opname o4 \<notin> {''LOAD_METHOD'', ''LOAD_ATTR'', ''IMPORT_FROM'', ''STORE_FAST'', ''DELETE_FAST''}"
      and "fst (get_referenced_objects env code c) = Inr rs"
  shows "prefix (refs st @ (if tos st = VNone then [] else [tos st])
                  @ [VStr (argval o1 @ ''.'' @ argval o2 @ ''.'' @ argval o3)]) rs"
proof -
  have g: "globals (wctx st) (argval o1) = None"
    using walk_ops_frame_ok [OF assms(2)] assms(4) by (simp add: init_state_def)
  from chain3 [OF assms(3) g assms(5,6)] obtain s3 where
    w3: "walk_ops env code [o1, o2, o3] st = Inr s3"
    and t3: "tos s3 = VStr (argval o1 @ ''.'' @ argval o2 @ ''.'' @ argval o3)"
    and r3: "refs s3 = refs st @ (if tos st = VNone then [] else [tos st])"
    by blast
  have split: "walk_ops env code (pre @ [o1, o2, o3] @ o4 # post) (init_state c)
                 = walk_ops env code (o4 # post) s3"
    using assms(2) w3 by (simp only: walk_ops_append sum.case)
  from assms(8) obtain fin where f: "walk_ops env code (instructions code) (init_state c) = Inr fin"
    and rs: "rs = refs fin"
    by (auto simp: get_referenced_objects_def split: sum.splits prod.splits)
  from f assms(1) split have "walk_ops env code (o4 # post) s3 = Inr fin" by simp
  then obtain s4 where d4: "dispatch env o4 (set_lineno o4 s3) = Inr s4"
    and wp: "walk_ops env code post s4 = Inr fin"
    by (auto simp: Let_def split: sum.splits option.splits)
  have "refs s4 = refs (set_lineno o4 s3) @ [tos (set_lineno o4 s3)]"
    using dispatch_consumes [OF d4 _ assms(7)] t3 by simp
  then have "refs s4 = refs st @ (if tos st = VNone then [] else [tos st])
                         @ [VStr (argval o1 @ ''.'' @ argval o2 @ ''.'' @ argval o3)]"
    using t3 r3 by simp
  with walk_ops_refs_prefix [OF wp] rs show ?thesis by simp
qed

theorem dotted_chain_single_reference_witness:
  "fst (get_referenced_objects demo_env
          (demo_code [ins ''LOAD_GLOBAL'' ''a'', ins ''LOAD_ATTR'' ''b'', ins ''LOAD_ATTR'' ''c'',
                      ins ''RETURN_VALUE'' ''''])
          demo_ctx) = Inr [VStr ''a.b.c'']
   \<and> prefix [VStr ''a.b.c''] [VStr ''a.b.c'']"
proof -
  let ?code = "demo_code [ins ''LOAD_GLOBAL'' ''a'', ins ''LOAD_ATTR'' ''b'', ins ''LOAD_ATTR'' ''c'',
                      ins ''RETURN_VALUE'' '''']"
  have h1: "instructions ?code = [] @ [ins ''LOAD_GLOBAL'' ''a'', ins ''LOAD_ATTR'' ''b'',
              ins ''LOAD_ATTR'' ''c'', ins ''RETURN_VALUE'' ''''] @ []"
    by (simp add: demo_code_def)
  have h2: "walk_ops demo_env ?code [] (init_state demo_ctx) = Inr (init_state demo_ctx)" by simp
  have h3: "opname (ins ''LOAD_GLOBAL'' ''a'') \<in> {''LOAD_GLOBAL'', ''LOAD_NAME''}"
    by (simp add: ins_def)
  have h4: "globals demo_ctx (argval (ins ''LOAD_GLOBAL'' ''a'')) = None"
    by (simp add: ins_def demo_ctx_def)
  have h5: "opname (ins ''LOAD_ATTR'' ''b'') \<in> {''LOAD_METHOD'', ''LOAD_ATTR'', ''IMPORT_FROM''}"
    by (simp add: ins_def)
  have h6: "opname (ins ''LOAD_ATTR'' ''c'') \<in> {''LOAD_METHOD'', ''LOAD_ATTR'', ''IMPORT_FROM''}"
    by (simp add: ins_def)
  have h7: "opname (ins ''RETURN_VALUE'' '''') \<notin>
              {''LOAD_METHOD'', ''LOAD_ATTR'', ''IMPORT_FROM'', ''STORE_FAST'', ''DELETE_FAST''}"
    by (simp add: ins_def)
  have h8: "fst (get_referenced_objects demo_env ?code demo_ctx) = Inr [VStr ''a.b.c'']"
    by (simp add: get_referenced_objects_def demo_code_def Let_def dispatch_def ins_def
          init_state_def set_lineno_def set_tos_def hash_tos_def demo_ctx_def)
  from dotted_chain_single_reference [OF h1 h2 h3 h4 h5 h6 h7 h8] h8
  show ?thesis by (simp add: init_state_def ins_def)
qed

text \<open>
  For C3 as first stated ("for every callable that accesses \<open>a.b.c\<close> on a base that is
  not a known local or global"), two callables. In \<open>x = a.b.c\<close> the chain is followed by
  \<open>STORE_FAST\<close>, the string goes into \<open>varnames\<close>, and the walk returns no reference at
  all. In \<open>def f(a): return a.b.c\<close> the base is a parameter, a local that \<open>varnames\<close>
  does not know: its \<open>LOAD_FAST\<close> leaves \<open>tos\<close> empty, and the two attribute instructions
  append \<open>"b"\<close> and \<open>"c"\<close> as separate references.
\<close>

theorem dotted_chain_stored_counterexample:
  "globals demo_ctx ''a'' = None
   \<and> varnames demo_ctx ''a'' = None
   \<and> fst (get_referenced_objects demo_env
          (demo_code [ins ''LOAD_GLOBAL'' ''a'', ins ''LOAD_ATTR'' ''b'', ins ''LOAD_ATTR'' ''c'',
                      ins ''STORE_FAST'' ''x'', ins ''LOAD_CONST'' [], ins ''RETURN_VALUE'' []])
          demo_ctx) = Inr []
   \<and> fst (get_referenced_objects demo_env
          (demo_code [ins ''LOAD_FAST'' ''a'', ins ''LOAD_ATTR'' ''b'', ins ''LOAD_ATTR'' ''c'',
                      ins ''RETURN_VALUE'' []])
          demo_ctx) = Inr [VStr ''b'', VStr ''c'']"
  by (simp add: get_referenced_objects_def demo_code_def Let_def dispatch_def ins_def
        init_state_def set_lineno_def set_tos_def hash_tos_def demo_ctx_def)


end
